theory Spec2Isabelle
  imports Main "HOL-Library.Word" "HOL-Library.AList"
begin

section \<open>Values shared by the republisher and the keystore\<close>

text \<open>
  Identities (\<open>peer.ID\<close>) and byte slices are strings. A private key is opaque: the code
  only hands it to the crypto library.
\<close>

type_synonym peer_id = string
type_synonym bytes = string

datatype priv_key = PrivKey string

text \<open>
  Go errors. The package-level sentinels are constructors of their own, since the code
  compares against them by identity; \<open>ErrName\<close> is an error made by \<open>fmt.Errorf\<close> in
  \<open>validateName\<close>; \<open>ErrNotExist\<close> is an operating-system error for which
  \<open>os.IsNotExist\<close> holds; \<open>ErrDsNotFound\<close> is the datastore's not-found error;
  \<open>ErrExt\<close> is any other error made outside the two packages (I/O, protobuf, crypto,
  routing), carried with its message.
\<close>

datatype error =
    ErrNoEntry
  | ErrNoSuchKey
  | ErrKeyExists
  | ErrName string
  | ErrNotExist
  | ErrDsNotFound
  | ErrExt string

text \<open>A call returns a value, returns an error, or panics.\<close>

datatype 'a res = Ok 'a | Err error | Panic string

section \<open>The republisher (package republisher)\<close>

subsection \<open>Collaborators\<close>

text \<open>
  The datastore interface returns \<open>interface{}\<close> values: a value is a byte slice or
  something else. An implementation holds values under keys and may fail on a key with an
  error of its own (a failing disk, a closed database).
\<close>

datatype ds_value = DsBytes bytes | DsOther

record datastore =
  ds_contents :: "string \<rightharpoonup> ds_value"
  ds_fault :: "string \<rightharpoonup> string"

definition ds_Get :: "datastore \<Rightarrow> string \<Rightarrow> error + ds_value" where
  "ds_Get d k =
     (case ds_fault d k of
        Some e \<Rightarrow> Inl (ErrExt e)
      | None \<Rightarrow> (case ds_contents d k of
                   None \<Rightarrow> Inl ErrDsNotFound
                 | Some v \<Rightarrow> Inr v))"

text \<open>The two protobuf messages, with the fields the code reads.\<close>

record dht_Record =
  rec_Value :: bytes

record IpnsEntry =
  ent_Value :: bytes
  ent_Sequence :: "64 word"

text \<open>
  The arguments of one call of \<open>namesys.PutRecordToRouting\<close>: the signing key, the
  payload path, the sequence number, the expiry and the identity. Times are nanoseconds
  since the epoch, durations are nanoseconds.
\<close>

record put_call =
  put_key :: priv_key
  put_path :: string
  put_seq :: "64 word"
  put_eol :: int
  put_id :: peer_id

text \<open>
  Library functions the two packages call and that are not part of them: each is a
  parameter. A failing call returns its error message on the left. \<open>Now n\<close> is what the
  \<open>n\<close>-th reading of the clock returns.
\<close>

record libs =
  IDFromPrivateKey :: "priv_key \<Rightarrow> string + peer_id"
  IpnsKeysForID :: "peer_id \<Rightarrow> string \<times> string"
  NewKeyFromBinary :: "bytes \<Rightarrow> string"
  Unmarshal_Record :: "bytes \<Rightarrow> string + dht_Record"
  Unmarshal_IpnsEntry :: "bytes \<Rightarrow> string + IpnsEntry"
  Now :: "nat \<Rightarrow> int"
  Bytes :: "priv_key \<Rightarrow> string + bytes"
  UnmarshalPrivateKey :: "bytes \<Rightarrow> string + priv_key"

subsection \<open>Observable effects\<close>

text \<open>
  Every call the republisher makes to a collaborator, to the logger, to the clock or to
  its own mutex is recorded, in order, in the trace of the world.
\<close>

datatype event =
    EvDebugf peer_id
  | EvGetById peer_id
  | EvDsGet string
  | EvNow int
  | EvPut put_call
  | EvPrintln string
  | EvLogError error
  | EvLock
  | EvUnlock

record world =
  trace :: "event list"
  now_calls :: nat

definition emit :: "event \<Rightarrow> world \<Rightarrow> world" where
  "emit e w = w\<lparr>trace := trace w @ [e]\<rparr>"

definition events_since :: "world \<Rightarrow> world \<Rightarrow> event list" where
  "events_since w w' = drop (length (trace w)) (trace w')"

subsection \<open>The Republisher struct and its constructor\<close>

definition Hour :: int where
  "Hour = 3600 * 1000000000"

definition DefaultRebroadcastInterval :: int where
  "DefaultRebroadcastInterval = Hour * 4"

definition DefaultRecordLifetime :: int where
  "DefaultRecordLifetime = Hour * 24"

text \<open>
  \<open>rp_r\<close> is the routing value store seen through \<open>PutRecordToRouting\<close>: the error of
  a push, if it fails. \<open>rp_ks\<close> is the keystore's \<open>GetById\<close>. \<open>rp_entries\<close> is the
  Go map \<open>map[peer.ID]struct{}\<close>.
\<close>

record Republisher =
  rp_r :: "put_call \<Rightarrow> string option"
  rp_ds :: datastore
  rp_self :: priv_key
  rp_ks :: "peer_id \<Rightarrow> error + priv_key"
  Interval :: int
  RecordLifetime :: int
  rp_entries :: "peer_id \<rightharpoonup> unit"

definition NewRepublisher ::
  "(put_call \<Rightarrow> string option) \<Rightarrow> datastore \<Rightarrow> priv_key \<Rightarrow> (peer_id \<Rightarrow> error + priv_key)
     \<Rightarrow> Republisher" where
  "NewRepublisher r ds self ks =
     \<lparr> rp_r = r, rp_ds = ds, rp_self = self, rp_ks = ks,
       Interval = DefaultRebroadcastInterval,
       RecordLifetime = DefaultRecordLifetime,
       rp_entries = Map.empty \<rparr>"

definition AddName :: "Republisher \<Rightarrow> peer_id \<Rightarrow> world \<Rightarrow> Republisher \<times> world" where
  "AddName rp pid w =
     (let w1 = emit EvLock w;
          rp' = rp\<lparr>rp_entries := (rp_entries rp)(pid \<mapsto> ())\<rparr>
      in (rp', emit EvUnlock w1))"

subsection \<open>Loading the last published record\<close>

definition getLastVal ::
  "libs \<Rightarrow> Republisher \<Rightarrow> string \<Rightarrow> world \<Rightarrow> (string \<times> 64 word) res \<times> world" where
  "getLastVal L rp k w =
     (let dk = NewKeyFromBinary L k;
          w1 = emit (EvDsGet dk) w
      in case ds_Get (rp_ds rp) dk of
           Inl err \<Rightarrow> (Err ErrNoEntry, w1)
         | Inr DsOther \<Rightarrow> (Panic ''interface conversion: interface {} is not []uint8'', w1)
         | Inr (DsBytes val) \<Rightarrow>
             (case Unmarshal_Record L val of
                Inl err \<Rightarrow> (Err (ErrExt err), w1)
              | Inr dhtrec \<Rightarrow>
                  (case Unmarshal_IpnsEntry L (rec_Value dhtrec) of
                     Inl err \<Rightarrow> (Err (ErrExt err), w1)
                   | Inr e \<Rightarrow> (Ok (ent_Value e, ent_Sequence e), w1))))"

subsection \<open>One renewal pass\<close>

text \<open>
  The body of the \<open>for ... range rp.entries\<close> loop, for one identity: it ends with
  \<open>continue\<close> (or falls out of the body), with \<open>return err\<close>, or with a panic.
\<close>

datatype step = Continue | Return error | Panicked string

definition republishEntry ::
  "libs \<Rightarrow> Republisher \<Rightarrow> peer_id \<Rightarrow> world \<Rightarrow> step \<times> world" where
  "republishEntry L rp pid w =
     (let w1 = emit (EvDebugf pid) w
      in case IDFromPrivateKey L (rp_self rp) of
           Inl err \<Rightarrow> (Return (ErrExt err), w1)
         | Inr selfId \<Rightarrow>
             (case (if pid = selfId then (Inr (rp_self rp), w1)
                    else (rp_ks rp pid, emit (EvGetById pid) w1)) of
                (Inl err, w2) \<Rightarrow> (Return err, w2)
              | (Inr priv, w2) \<Rightarrow>
                  (let ipnskey = snd (IpnsKeysForID L pid)
                   in case getLastVal L rp ipnskey w2 of
                        (Panic m, w3) \<Rightarrow> (Panicked m, w3)
                      | (Err err, w3) \<Rightarrow>
                          (if err = ErrNoEntry then (Continue, w3) else (Return err, w3))
                      | (Ok (p, seq), w3) \<Rightarrow>
                          (let now = Now L (now_calls w3);
                               w4 = emit (EvNow now) (w3\<lparr>now_calls := Suc (now_calls w3)\<rparr>);
                               eol = now + RecordLifetime rp;
                               c = \<lparr> put_key = priv, put_path = p, put_seq = seq,
                                     put_eol = eol, put_id = pid \<rparr>;
                               w5 = emit (EvPut c) w4
                           in case rp_r rp c of
                                Some err \<Rightarrow>
                                  (Return (ErrExt err),
                                   emit (EvPrintln (''put record to routing error: '' @ err)) w5)
                              | None \<Rightarrow> (Continue, w5)))))"

text \<open>
  The loop over the identities in the order in which \<open>range\<close> yields them. Go leaves
  that order to the runtime, so it is an argument.
\<close>

fun republishLoop ::
  "libs \<Rightarrow> Republisher \<Rightarrow> peer_id list \<Rightarrow> world \<Rightarrow> unit res \<times> world" where
  "republishLoop L rp [] w = (Ok (), w)"
| "republishLoop L rp (pid # ids) w =
     (case republishEntry L rp pid w of
        (Continue, w') \<Rightarrow> republishLoop L rp ids w'
      | (Return err, w') \<Rightarrow> (Err err, w')
      | (Panicked m, w') \<Rightarrow> (Panic m, w'))"

definition republishEntries ::
  "libs \<Rightarrow> Republisher \<Rightarrow> peer_id list \<Rightarrow> world \<Rightarrow> unit res \<times> world" where
  "republishEntries L rp order w = republishLoop L rp order w"

text \<open>
  \<open>range\<close> reads the map itself, not a copy, and the pass never takes \<open>entrylock\<close>.
  When registrations from other goroutines fall between two iterations, the loop runs
  against the map as it is then: a schedule lists, in order, the identities that
  \<open>range\<close> yields and the registrations that happen in between. \<open>range\<close> yields only
  keys that are in the map and that it has not yielded before; a schedule that asks for
  anything else is not an execution (\<open>None\<close>).
\<close>

datatype action = Visit peer_id | Register peer_id

fun republishLive ::
  "libs \<Rightarrow> action list \<Rightarrow> peer_id list \<Rightarrow> Republisher \<Rightarrow> world
     \<Rightarrow> (unit res \<times> Republisher \<times> world) option" where
  "republishLive L [] seen rp w =
     (if dom (rp_entries rp) \<subseteq> set seen then Some (Ok (), rp, w) else None)"
| "republishLive L (Register pid # acts) seen rp w =
     (case AddName rp pid w of (rp', w') \<Rightarrow> republishLive L acts seen rp' w')"
| "republishLive L (Visit pid # acts) seen rp w =
     (if rp_entries rp pid = None \<or> pid \<in> set seen then None
      else case republishEntry L rp pid w of
             (Continue, w') \<Rightarrow> republishLive L acts (pid # seen) rp w'
           | (Return err, w') \<Rightarrow> Some (Err err, rp, w')
           | (Panicked m, w') \<Rightarrow> Some (Panic m, rp, w'))"

subsection \<open>The scheduler\<close>

text \<open>
  \<open>Run\<close> waits in a \<open>select\<close> on the ticker and on the closing signal. The cases that
  \<open>select\<close> takes, in order, are the input: a tick (with the order in which that pass
  will range over the map) or the closing signal. When the input ends without a closing
  signal, \<open>Run\<close> is still blocked in \<open>select\<close>. \<open>time.NewTicker\<close> panics on an
  interval that is not positive.
\<close>

datatype select_case = Tick "peer_id list" | Closing

datatype run_outcome = Returned | Blocked | RunPanicked string

fun Run_loop ::
  "libs \<Rightarrow> Republisher \<Rightarrow> select_case list \<Rightarrow> world \<Rightarrow> run_outcome \<times> world" where
  "Run_loop L rp [] w = (Blocked, w)"
| "Run_loop L rp (Closing # cs) w = (Returned, w)"
| "Run_loop L rp (Tick order # cs) w =
     (case republishEntries L rp order w of
        (Ok u, w') \<Rightarrow> Run_loop L rp cs w'
      | (Err err, w') \<Rightarrow> Run_loop L rp cs (emit (EvLogError err) w')
      | (Panic m, w') \<Rightarrow> (RunPanicked m, w'))"

definition Run ::
  "libs \<Rightarrow> Republisher \<Rightarrow> select_case list \<Rightarrow> world \<Rightarrow> run_outcome \<times> world" where
  "Run L rp cs w =
     (if Interval rp \<le> 0 then (RunPanicked ''non-positive interval for NewTicker'', w)
      else Run_loop L rp cs w)"

section \<open>The keystore on the file system (package keystore)\<close>

text \<open>
  The state of the keystore's directory. An entry exists under a name as a readable file
  with its content, or as an entry on which \<open>stat\<close> and \<open>read\<close> fail with an I/O error
  that is not a not-exist error. The entries are kept in the order in which
  \<open>Readdirnames\<close> lists them. Listing, creating and writing may fail with an error of
  their own. Every call to the operating system is recorded in \<open>fs_oplog\<close>.

  \<open>Get\<close>, \<open>Put\<close> and \<open>Delete\<close> join the directory and the name only after
  \<open>validateName\<close> has accepted the name; such a name has no slash and no leading period,
  so the joined path is the entry of that name in the directory.
\<close>

datatype fnode = File bytes | Broken string

datatype fs_op =
    OpStat string
  | OpReadFile string
  | OpCreate string
  | OpWrite string bytes
  | OpRemove string
  | OpOpen
  | OpReaddirnames

record fsdir =
  fs_files :: "(string \<times> fnode) list"
  fs_list_err :: "string option"
  fs_create_err :: "string option"
  fs_write_err :: "string option"
  fs_oplog :: "fs_op list"

definition oplog :: "fs_op \<Rightarrow> fsdir \<Rightarrow> fsdir" where
  "oplog op fs = fs\<lparr>fs_oplog := fs_oplog fs @ [op]\<rparr>"

definition os_IsNotExist :: "error \<Rightarrow> bool" where
  "os_IsNotExist err = (err = ErrNotExist)"

definition os_Stat :: "fsdir \<Rightarrow> string \<Rightarrow> error option \<times> fsdir" where
  "os_Stat fs name =
     (case map_of (fs_files fs) name of
        None \<Rightarrow> Some ErrNotExist
      | Some (File b) \<Rightarrow> None
      | Some (Broken e) \<Rightarrow> Some (ErrExt e),
      oplog (OpStat name) fs)"

definition ioutil_ReadFile :: "fsdir \<Rightarrow> string \<Rightarrow> (error + bytes) \<times> fsdir" where
  "ioutil_ReadFile fs name =
     (case map_of (fs_files fs) name of
        None \<Rightarrow> Inl ErrNotExist
      | Some (File b) \<Rightarrow> Inr b
      | Some (Broken e) \<Rightarrow> Inl (ErrExt e),
      oplog (OpReadFile name) fs)"

definition os_Create :: "fsdir \<Rightarrow> string \<Rightarrow> error option \<times> fsdir" where
  "os_Create fs name =
     (case fs_create_err fs of
        Some e \<Rightarrow> (Some (ErrExt e), oplog (OpCreate name) fs)
      | None \<Rightarrow>
          (None, oplog (OpCreate name)
                   (fs\<lparr>fs_files := AList.update name (File []) (fs_files fs)\<rparr>)))"

definition file_Write :: "fsdir \<Rightarrow> string \<Rightarrow> bytes \<Rightarrow> error option \<times> fsdir" where
  "file_Write fs name b =
     (case fs_write_err fs of
        Some e \<Rightarrow> (Some (ErrExt e), oplog (OpWrite name b) fs)
      | None \<Rightarrow>
          (None, oplog (OpWrite name b)
                   (fs\<lparr>fs_files := AList.update name (File b) (fs_files fs)\<rparr>)))"

definition os_Remove :: "fsdir \<Rightarrow> string \<Rightarrow> error option \<times> fsdir" where
  "os_Remove fs name =
     (case map_of (fs_files fs) name of
        None \<Rightarrow> (Some ErrNotExist, oplog (OpRemove name) fs)
      | Some n \<Rightarrow>
          (None, oplog (OpRemove name)
                   (fs\<lparr>fs_files := AList.delete name (fs_files fs)\<rparr>)))"

subsection \<open>The keystore's operations\<close>

definition validateName :: "string \<Rightarrow> error option" where
  "validateName name =
     (if name = [] then Some (ErrName ''key names must be at least one character'')
      else if CHR ''/'' \<in> set name then Some (ErrName ''key names may not contain slashes'')
      else if take 1 name = ''.'' then
        Some (ErrName ''key names may not begin with a period'')
      else None)"

definition Put :: "libs \<Rightarrow> fsdir \<Rightarrow> string \<Rightarrow> priv_key \<Rightarrow> error option \<times> fsdir" where
  "Put L fs name k =
     (case validateName name of
        Some err \<Rightarrow> (Some err, fs)
      | None \<Rightarrow>
          (case Bytes L k of
             Inl e \<Rightarrow> (Some (ErrExt e), fs)
           | Inr b \<Rightarrow>
               (case os_Stat fs name of
                  (None, fs1) \<Rightarrow> (Some ErrKeyExists, fs1)
                | (Some err, fs1) \<Rightarrow>
                    (if \<not> os_IsNotExist err then (Some err, fs1)
                     else case os_Create fs1 name of
                            (Some err, fs2) \<Rightarrow> (Some err, fs2)
                          | (None, fs2) \<Rightarrow>
                              (case file_Write fs2 name b of
                                 (Some err, fs3) \<Rightarrow> (Some err, fs3)
                               | (None, fs3) \<Rightarrow> (None, fs3))))))"

definition Get :: "libs \<Rightarrow> fsdir \<Rightarrow> string \<Rightarrow> (error + priv_key) \<times> fsdir" where
  "Get L fs name =
     (case validateName name of
        Some err \<Rightarrow> (Inl err, fs)
      | None \<Rightarrow>
          (case ioutil_ReadFile fs name of
             (Inl err, fs1) \<Rightarrow>
               (if os_IsNotExist err then (Inl ErrNoSuchKey, fs1) else (Inl err, fs1))
           | (Inr data, fs1) \<Rightarrow>
               (case UnmarshalPrivateKey L data of
                  Inl e \<Rightarrow> (Inl (ErrExt e), fs1)
                | Inr k \<Rightarrow> (Inr k, fs1))))"

definition List :: "fsdir \<Rightarrow> (error + string list) \<times> fsdir" where
  "List fs =
     (case fs_list_err fs of
        Some e \<Rightarrow> (Inl (ErrExt e), oplog OpOpen fs)
      | None \<Rightarrow> (Inr (map fst (fs_files fs)), oplog OpReaddirnames (oplog OpOpen fs)))"

fun GetById_loop ::
  "libs \<Rightarrow> peer_id \<Rightarrow> string list \<Rightarrow> error option \<Rightarrow> fsdir \<Rightarrow> (error + priv_key) \<times> fsdir" where
  "GetById_loop L want [] lastErr fs =
     (case lastErr of
        None \<Rightarrow> (Inl ErrNoSuchKey, fs)
      | Some err \<Rightarrow> (Inl err, fs))"
| "GetById_loop L want (name # names) lastErr fs =
     (case Get L fs name of
        (Inl err, fs1) \<Rightarrow> GetById_loop L want names (Some err) fs1
      | (Inr sk, fs1) \<Rightarrow>
          (case IDFromPrivateKey L sk of
             Inl e \<Rightarrow> GetById_loop L want names (Some (ErrExt e)) fs1
           | Inr pid \<Rightarrow>
               (if want = pid then (Inr sk, fs1)
                else GetById_loop L want names lastErr fs1)))"

definition GetById :: "libs \<Rightarrow> fsdir \<Rightarrow> peer_id \<Rightarrow> (error + priv_key) \<times> fsdir" where
  "GetById L fs want =
     (case List fs of
        (Inl err, fs1) \<Rightarrow> (Inl err, fs1)
      | (Inr names, fs1) \<Rightarrow> GetById_loop L want names None fs1)"

definition Delete :: "fsdir \<Rightarrow> string \<Rightarrow> error option \<times> fsdir" where
  "Delete fs name =
     (case validateName name of
        Some err \<Rightarrow> (Some err, fs)
      | None \<Rightarrow> os_Remove fs name)"

section \<open>Notions used to state the properties\<close>

text \<open>
  What \<open>getLastVal\<close> returns does not depend on the world it starts in (only the trace
  it leaves does): \<open>lastVal\<close> is that result. \<open>dskey\<close> is the datastore key under
  which the pass looks for an identity's record.
\<close>

definition lastVal :: "libs \<Rightarrow> Republisher \<Rightarrow> string \<Rightarrow> (string \<times> 64 word) res" where
  "lastVal L rp k = fst (getLastVal L rp k \<lparr>trace = [], now_calls = 0\<rparr>)"

definition dskey :: "libs \<Rightarrow> peer_id \<Rightarrow> string" where
  "dskey L pid = NewKeyFromBinary L (snd (IpnsKeysForID L pid))"

subsection \<open>A concrete installation\<close>

text \<open>
  The process's own key is \<open>X\<close>; the keystore holds the key of \<open>Y\<close>. The datastore
  caches a record for \<open>X\<close> with payload \<open>/ipfs/abc\<close> and sequence number 3, and
  nothing for \<open>Y\<close>.
\<close>

definition demo_libs :: libs where
  "demo_libs =
     \<lparr> IDFromPrivateKey =
         (\<lambda>k. case k of PrivKey s \<Rightarrow> if s = [] then Inl ''empty key'' else Inr (''id-'' @ s)),
       IpnsKeysForID = (\<lambda>pid. (''/pk/'' @ pid, ''/ipns/'' @ pid)),
       NewKeyFromBinary = (\<lambda>k. k),
       Unmarshal_Record =
         (\<lambda>b. if take 4 b = ''rec:'' then Inr \<lparr> rec_Value = drop 4 b \<rparr>
              else Inl ''proto: cannot parse record''),
       Unmarshal_IpnsEntry =
         (\<lambda>b. if b = ''seq3:/ipfs/abc''
              then Inr \<lparr> ent_Value = ''/ipfs/abc'', ent_Sequence = 3 \<rparr>
              else Inl ''proto: cannot parse entry''),
       Now = (\<lambda>n. 1000 + int n),
       Bytes = (\<lambda>k. case k of PrivKey s \<Rightarrow> Inr s),
       UnmarshalPrivateKey = (\<lambda>b. if b = [] then Inl ''empty key file'' else Inr (PrivKey b)) \<rparr>"

definition demo_ds :: datastore where
  "demo_ds =
     \<lparr> ds_contents = [''/ipns/id-X'' \<mapsto> DsBytes ''rec:seq3:/ipfs/abc''],
       ds_fault = Map.empty \<rparr>"

definition demo_ks :: "peer_id \<Rightarrow> error + priv_key" where
  "demo_ks pid = (if pid = ''id-Y'' then Inr (PrivKey ''Y'') else Inl ErrNoSuchKey)"

definition demo_rp :: Republisher where
  "demo_rp =
     (NewRepublisher (\<lambda>c. None) demo_ds (PrivKey ''X'') demo_ks)
       \<lparr> rp_entries := [''id-X'' \<mapsto> (), ''id-Y'' \<mapsto> ()] \<rparr>"

definition w0 :: world where
  "w0 = \<lparr> trace = [], now_calls = 0 \<rparr>"

section \<open>Properties of the renewal pass\<close>

subsection \<open>The trace of one iteration and of the loop\<close>

lemma trace_emit: "trace (emit e w) = trace w @ [e]"
  by (simp add: emit_def)

lemma now_calls_emit: "now_calls (emit e w) = now_calls w"
  by (simp add: emit_def)

lemma getLastVal_eq:
  "getLastVal L rp k w = (lastVal L rp k, emit (EvDsGet (NewKeyFromBinary L k)) w)"
  by (simp add: lastVal_def getLastVal_def Let_def split: sum.splits ds_value.splits)

lemma republishEntry_cases [case_names self_fail key_fail no_entry load_fail load_panic pushed push_fail]:
  obtains
    (self_fail) m where
      "IDFromPrivateKey L (rp_self rp) = Inl m"
      "republishEntry L rp pid w = (Return (ErrExt m), w\<lparr>trace := trace w @ [EvDebugf pid]\<rparr>)"
  | (key_fail) sid e where
      "IDFromPrivateKey L (rp_self rp) = Inr sid" "pid \<noteq> sid" "rp_ks rp pid = Inl e"
      "republishEntry L rp pid w = (Return e, w\<lparr>trace := trace w @ [EvDebugf pid, EvGetById pid]\<rparr>)"
  | (no_entry) sid priv kev where
      "IDFromPrivateKey L (rp_self rp) = Inr sid"
      "pid = sid \<and> priv = rp_self rp \<and> kev = [] \<or> pid \<noteq> sid \<and> rp_ks rp pid = Inr priv \<and> kev = [EvGetById pid]"
      "lastVal L rp (snd (IpnsKeysForID L pid)) = Err ErrNoEntry"
      "republishEntry L rp pid w =
         (Continue, w\<lparr>trace := trace w @ EvDebugf pid # kev @ [EvDsGet (dskey L pid)]\<rparr>)"
  | (load_fail) sid priv kev e where
      "IDFromPrivateKey L (rp_self rp) = Inr sid"
      "pid = sid \<and> priv = rp_self rp \<and> kev = [] \<or> pid \<noteq> sid \<and> rp_ks rp pid = Inr priv \<and> kev = [EvGetById pid]"
      "lastVal L rp (snd (IpnsKeysForID L pid)) = Err e" "e \<noteq> ErrNoEntry"
      "republishEntry L rp pid w =
         (Return e, w\<lparr>trace := trace w @ EvDebugf pid # kev @ [EvDsGet (dskey L pid)]\<rparr>)"
  | (load_panic) sid priv kev m where
      "IDFromPrivateKey L (rp_self rp) = Inr sid"
      "pid = sid \<and> priv = rp_self rp \<and> kev = [] \<or> pid \<noteq> sid \<and> rp_ks rp pid = Inr priv \<and> kev = [EvGetById pid]"
      "lastVal L rp (snd (IpnsKeysForID L pid)) = Panic m"
      "republishEntry L rp pid w =
         (Panicked m, w\<lparr>trace := trace w @ EvDebugf pid # kev @ [EvDsGet (dskey L pid)]\<rparr>)"
  | (pushed) sid priv kev p seq c where
      "IDFromPrivateKey L (rp_self rp) = Inr sid"
      "pid = sid \<and> priv = rp_self rp \<and> kev = [] \<or> pid \<noteq> sid \<and> rp_ks rp pid = Inr priv \<and> kev = [EvGetById pid]"
      "lastVal L rp (snd (IpnsKeysForID L pid)) = Ok (p, seq)"
      "c = \<lparr> put_key = priv, put_path = p, put_seq = seq,
             put_eol = Now L (now_calls w) + RecordLifetime rp, put_id = pid \<rparr>"
      "rp_r rp c = None"
      "republishEntry L rp pid w =
         (Continue, w\<lparr>trace := trace w @ EvDebugf pid # kev @
                        [EvDsGet (dskey L pid), EvNow (Now L (now_calls w)), EvPut c],
                      now_calls := Suc (now_calls w)\<rparr>)"
  | (push_fail) sid priv kev p seq c m where
      "IDFromPrivateKey L (rp_self rp) = Inr sid"
      "pid = sid \<and> priv = rp_self rp \<and> kev = [] \<or> pid \<noteq> sid \<and> rp_ks rp pid = Inr priv \<and> kev = [EvGetById pid]"
      "lastVal L rp (snd (IpnsKeysForID L pid)) = Ok (p, seq)"
      "c = \<lparr> put_key = priv, put_path = p, put_seq = seq,
             put_eol = Now L (now_calls w) + RecordLifetime rp, put_id = pid \<rparr>"
      "rp_r rp c = Some m"
      "republishEntry L rp pid w =
         (Return (ErrExt m), w\<lparr>trace := trace w @ EvDebugf pid # kev @
                        [EvDsGet (dskey L pid), EvNow (Now L (now_calls w)), EvPut c,
                         EvPrintln (''put record to routing error: '' @ m)],
                      now_calls := Suc (now_calls w)\<rparr>)"
proof (cases "IDFromPrivateKey L (rp_self rp)")
  case (Inl m)
  then show ?thesis using self_fail by (simp add: republishEntry_def emit_def)
next
  case (Inr sid)
  show ?thesis
  proof (cases "if pid = sid then Inr (rp_self rp) else rp_ks rp pid")
    case (Inl e)
    with Inr show ?thesis using key_fail[of sid e]
      by (auto simp: republishEntry_def emit_def split: if_splits)
  next
    case priv: (Inr priv)
    define kev where "kev = (if pid = sid then [] else [EvGetById pid])"
    have k: "pid = sid \<and> priv = rp_self rp \<and> kev = [] \<or> pid \<noteq> sid \<and> rp_ks rp pid = Inr priv \<and> kev = [EvGetById pid]"
      using priv by (auto simp: kev_def split: if_splits)
    show ?thesis
    proof (cases "lastVal L rp (snd (IpnsKeysForID L pid))")
      case (Ok ps)
      obtain p seq where ps: "ps = (p, seq)" by (cases ps)
      define c where "c = \<lparr> put_key = priv, put_path = p, put_seq = seq,
             put_eol = Now L (now_calls w) + RecordLifetime rp, put_id = pid \<rparr>"
      show ?thesis
      proof (cases "rp_r rp c")
        case None
        show ?thesis
          apply (rule pushed[OF Inr k Ok[unfolded ps] c_def None])
          using Inr priv Ok ps None
          by (auto simp: republishEntry_def getLastVal_eq emit_def Let_def kev_def c_def dskey_def
              split: if_splits)
      next
        case (Some m)
        show ?thesis
          apply (rule push_fail[OF Inr k Ok[unfolded ps] c_def Some])
          using Inr priv Ok ps Some
          by (auto simp: republishEntry_def getLastVal_eq emit_def Let_def kev_def c_def dskey_def
              split: if_splits)
      qed
    next
      case (Err e)
      show ?thesis
      proof (cases "e = ErrNoEntry")
        case True
        show ?thesis
          apply (rule no_entry[OF Inr k Err[unfolded True]])
          using Inr priv Err True
          by (auto simp: republishEntry_def getLastVal_eq emit_def Let_def kev_def dskey_def
              split: if_splits)
      next
        case False
        show ?thesis
          apply (rule load_fail[OF Inr k Err False])
          using Inr priv Err False
          by (auto simp: republishEntry_def getLastVal_eq emit_def Let_def kev_def dskey_def
              split: if_splits)
      qed
    next
      case (Panic m)
      show ?thesis
        apply (rule load_panic[OF Inr k Panic])
        using Inr priv Panic
        by (auto simp: republishEntry_def getLastVal_eq emit_def Let_def kev_def dskey_def
            split: if_splits)
    qed
  qed
qed


lemma fst_getLastVal: "fst (getLastVal L rp k w) = lastVal L rp k"
  by (simp add: getLastVal_eq)

lemma republishEntry_trace:
  "trace (snd (republishEntry L rp pid w)) =
     trace w @ events_since w (snd (republishEntry L rp pid w))"
  by (cases rule: republishEntry_cases[of L rp pid w]) (simp_all add: events_since_def)

lemma events_since_trans:
  "trace w1 = trace w @ a \<Longrightarrow> trace w2 = trace w1 @ b \<Longrightarrow>
     events_since w w2 = events_since w w1 @ events_since w1 w2"
  by (simp add: events_since_def)

lemma events_since_self: "events_since w w = []"
  by (simp add: events_since_def)

lemma trace_extends_events_since:
  "trace w' = trace w @ evs \<Longrightarrow> trace w' = trace w @ events_since w w'"
  by (simp add: events_since_def)

lemma republishLoop_trace:
  "trace (snd (republishLoop L rp order w)) =
     trace w @ events_since w (snd (republishLoop L rp order w))"
proof (induction order arbitrary: w)
  case Nil
  show ?case by (simp add: events_since_def)
next
  case (Cons pid ids)
  obtain st w1 where e: "republishEntry L rp pid w = (st, w1)"
    by (cases "republishEntry L rp pid w")
  have a: "trace w1 = trace w @ events_since w w1"
    using republishEntry_trace[of L rp pid w] e by simp
  show ?case
  proof (cases st)
    case Continue
    have b: "trace (snd (republishLoop L rp ids w1)) =
               trace w1 @ events_since w1 (snd (republishLoop L rp ids w1))"
      by (rule Cons.IH)
    have "trace (snd (republishLoop L rp ids w1)) =
            trace w @ (events_since w w1 @ events_since w1 (snd (republishLoop L rp ids w1)))"
      using a b by simp
    then have "trace (snd (republishLoop L rp ids w1)) =
            trace w @ events_since w (snd (republishLoop L rp ids w1))"
      by (rule trace_extends_events_since)
    then show ?thesis using e Continue by simp
  next
    case (Return err)
    then show ?thesis using e a by simp
  next
    case (Panicked m)
    then show ?thesis using e a by simp
  qed
qed

lemma republishLoop_Cons_events:
  assumes e: "republishEntry L rp pid w = (st, w1)"
  shows "events_since w (snd (republishLoop L rp (pid # ids) w)) =
           events_since w w1 @
           (if st = Continue then events_since w1 (snd (republishLoop L rp ids w1)) else [])"
proof -
  have a: "trace w1 = trace w @ events_since w w1"
    using republishEntry_trace[of L rp pid w] e by simp
  show ?thesis
  proof (cases st)
    case Continue
    have "events_since w (snd (republishLoop L rp ids w1)) =
            events_since w w1 @ events_since w1 (snd (republishLoop L rp ids w1))"
      by (rule events_since_trans[OF a republishLoop_trace])
    then show ?thesis using e Continue by simp
  next
    case (Return err)
    then show ?thesis using e by simp
  next
    case (Panicked m)
    then show ?thesis using e by simp
  qed
qed

lemma republishLoop_events_pointwise:
  assumes body: "\<And>pid w ev. pid \<in> set order \<Longrightarrow>
                   ev \<in> set (events_since w (snd (republishEntry L rp pid w))) \<Longrightarrow> Q ev"
  shows "ev \<in> set (events_since w (snd (republishLoop L rp order w))) \<Longrightarrow> Q ev"
  using body
proof (induction order arbitrary: w)
  case Nil
  then show ?case by (simp add: events_since_self)
next
  case (Cons pid ids)
  obtain st w1 where e: "republishEntry L rp pid w = (st, w1)"
    by (cases "republishEntry L rp pid w")
  from Cons.prems(1) have
    "ev \<in> set (events_since w w1) \<or>
     st = Continue \<and> ev \<in> set (events_since w1 (snd (republishLoop L rp ids w1)))"
    unfolding republishLoop_Cons_events[OF e] by (auto split: if_splits)
  then show ?case
  proof
    assume "ev \<in> set (events_since w w1)"
    then show ?thesis using Cons.prems(2) e by (metis list.set_intros(1) snd_conv)
  next
    assume a: "st = Continue \<and> ev \<in> set (events_since w1 (snd (republishLoop L rp ids w1)))"
    show ?thesis
    proof (rule Cons.IH)
      show "ev \<in> set (events_since w1 (snd (republishLoop L rp ids w1)))"
        using a by simp
    next
      fix p e' w'
      assume "p \<in> set ids" "e' \<in> set (events_since w' (snd (republishEntry L rp p w')))"
      then show "Q e'" using Cons.prems(2)[of p e' w'] by simp
    qed
  qed
qed

lemma republishEntry_put_events:
  assumes "EvPut c \<in> set (events_since w (snd (republishEntry L rp pid w)))"
  shows "put_id c = pid \<and>
         lastVal L rp (snd (IpnsKeysForID L pid)) = Ok (put_path c, put_seq c)"
  using assms
  by (cases rule: republishEntry_cases[of L rp pid w]) (auto simp: events_since_def)

lemma republishLoop_put_events:
  assumes "EvPut c \<in> set (events_since w (snd (republishLoop L rp order w)))"
  shows "put_id c \<in> set order \<and>
         lastVal L rp (snd (IpnsKeysForID L (put_id c))) = Ok (put_path c, put_seq c)"
proof -
  let ?Q = "\<lambda>ev. \<forall>c. ev = EvPut c \<longrightarrow> put_id c \<in> set order \<and>
         lastVal L rp (snd (IpnsKeysForID L (put_id c))) = Ok (put_path c, put_seq c)"
  have "?Q (EvPut c)"
  proof (rule republishLoop_events_pointwise[where Q = ?Q, OF _ assms])
    fix pid w ev
    assume "pid \<in> set order" "ev \<in> set (events_since w (snd (republishEntry L rp pid w)))"
    then show "?Q ev" using republishEntry_put_events by blast
  qed
  then show ?thesis by simp
qed

lemma republishLoop_pushes:
  assumes "fst (republishLoop L rp order w) = Ok ()" "pid \<in> set order"
    "lastVal L rp (snd (IpnsKeysForID L pid)) = Ok (p, S)"
  shows "\<exists>c. EvPut c \<in> set (events_since w (snd (republishLoop L rp order w))) \<and>
              put_id c = pid \<and> put_path c = p \<and> put_seq c = S"
  using assms
proof (induction order arbitrary: w)
  case Nil
  then show ?case by simp
next
  case (Cons a ids)
  obtain st w1 where e: "republishEntry L rp a w = (st, w1)"
    by (cases "republishEntry L rp a w")
  have st: "st = Continue" using Cons.prems(1) e by (cases st) auto
  have rest: "fst (republishLoop L rp ids w1) = Ok ()" using Cons.prems(1) e st by simp
  show ?case
  proof (cases "pid = a")
    case True
    have "\<exists>c. EvPut c \<in> set (events_since w w1) \<and>
              put_id c = pid \<and> put_path c = p \<and> put_seq c = S"
      using e st Cons.prems(3) True
      by (cases rule: republishEntry_cases[of L rp a w]) (auto simp: events_since_def)
    then show ?thesis unfolding republishLoop_Cons_events[OF e] by auto
  next
    case False
    then have "pid \<in> set ids" using Cons.prems(2) by simp
    from Cons.IH[OF rest this Cons.prems(3)] show ?thesis
      unfolding republishLoop_Cons_events[OF e] using st by auto
  qed
qed



lemma republishLoop_append:
  "republishLoop L rp pre w = (Ok (), w1) \<Longrightarrow>
     republishLoop L rp (pre @ rest) w = republishLoop L rp rest w1"
proof (induction pre arbitrary: w)
  case Nil
  then show ?case by simp
next
  case (Cons a pre)
  obtain st w' where e: "republishEntry L rp a w = (st, w')"
    by (cases "republishEntry L rp a w")
  show ?case using Cons.prems Cons.IH[of w'] e by (cases st) auto
qed

lemmas demo_defs = demo_libs_def demo_ds_def demo_ks_def demo_rp_def w0_def NewRepublisher_def
  DefaultRecordLifetime_def DefaultRebroadcastInterval_def Hour_def

lemmas pass_defs = republishEntries_def republishEntry_def getLastVal_def ds_Get_def emit_def
  events_since_def Let_def

subsection \<open>The sequence number is carried over unchanged\<close>

text \<open>
  C1. Every record that a pass pushes to the routing value store carries the identity of
  one of the watched identities and exactly the payload and the sequence number that
  \<open>getLastVal\<close> decodes from that identity's cached record; and when the pass succeeds,
  every watched identity whose cached record decodes to payload \<open>p\<close> and sequence
  number \<open>S\<close> has had a record pushed with that payload and with sequence number \<open>S\<close>.
\<close>

theorem republish_keeps_sequence:
  "(\<forall>c. EvPut c \<in> set (events_since w (snd (republishEntries L rp order w))) \<longrightarrow>
        put_id c \<in> set order \<and>
        fst (getLastVal L rp (snd (IpnsKeysForID L (put_id c))) w) = Ok (put_path c, put_seq c)) \<and>
   (\<forall>pid p S. fst (republishEntries L rp order w) = Ok () \<and> pid \<in> set order \<and>
        fst (getLastVal L rp (snd (IpnsKeysForID L pid)) w) = Ok (p, S) \<longrightarrow>
        (\<exists>c. EvPut c \<in> set (events_since w (snd (republishEntries L rp order w))) \<and>
             put_id c = pid \<and> put_path c = p \<and> put_seq c = S))"
  unfolding republishEntries_def fst_getLastVal
  using republishLoop_put_events[of _ w L rp order] republishLoop_pushes[of L rp order w]
  by blast

theorem republish_keeps_sequence_witness:
  "fst (republishEntries demo_libs demo_rp [''id-X'', ''id-Y''] w0) = Ok () \<and>
   fst (getLastVal demo_libs demo_rp (snd (IpnsKeysForID demo_libs ''id-X'')) w0) =
     Ok (''/ipfs/abc'', 3) \<and>
   (\<exists>c. EvPut c \<in> set (events_since w0
            (snd (republishEntries demo_libs demo_rp [''id-X'', ''id-Y''] w0))) \<and>
        put_id c = ''id-X'' \<and> put_path c = ''/ipfs/abc'' \<and> put_seq c = 3)"
proof -
  have a: "fst (republishEntries demo_libs demo_rp [''id-X'', ''id-Y''] w0) = Ok ()"
    by (simp add: demo_defs pass_defs)
  have b: "fst (getLastVal demo_libs demo_rp (snd (IpnsKeysForID demo_libs ''id-X'')) w0) =
     Ok (''/ipfs/abc'', 3)"
    by (simp add: demo_defs pass_defs)
  have c: "''id-X'' \<in> set [''id-X'', ''id-Y'']" by simp
  from republish_keeps_sequence[of w0 demo_libs demo_rp "[''id-X'', ''id-Y'']"] a b c
  show ?thesis by blast
qed

subsection \<open>A key that cannot be resolved ends the pass\<close>

text \<open>
  C2. When the pass has gone through the identities \<open>pre\<close> and reaches \<open>A\<close>, and the
  signing key of \<open>A\<close> cannot be resolved (deriving the process's own identity fails, or
  \<open>A\<close> is not the process's own identity and the keystore's lookup fails) with error
  \<open>e\<close>, then the pass returns \<open>e\<close>, and from the moment it reached \<open>A\<close> it has only
  logged \<open>A\<close> and, in the second case, looked \<open>A\<close> up: for the identities \<open>post\<close>
  that come after \<open>A\<close> there is no key lookup, no record load, no reading of the clock
  and no push.
\<close>

theorem key_failure_aborts_pass:
  assumes reach: "republishEntries L rp pre w = (Ok (), w1)"
    and fail: "(\<exists>m. IDFromPrivateKey L (rp_self rp) = Inl m \<and> e = ErrExt m) \<or>
               (\<exists>sid. IDFromPrivateKey L (rp_self rp) = Inr sid \<and> A \<noteq> sid \<and> rp_ks rp A = Inl e)"
  shows "\<exists>w2. republishEntries L rp (pre @ A # post) w = (Err e, w2) \<and>
              (events_since w1 w2 = [EvDebugf A] \<or>
               events_since w1 w2 = [EvDebugf A, EvGetById A]) \<and>
              now_calls w2 = now_calls w1"
proof -
  have app: "republishEntries L rp (pre @ A # post) w = republishLoop L rp (A # post) w1"
    using reach by (simp add: republishEntries_def republishLoop_append)
  show ?thesis
    using fail unfolding app
    by (cases rule: republishEntry_cases[of L rp A w1]) (auto simp: events_since_def)
qed

theorem key_failure_aborts_pass_witness:
  "republishEntries demo_libs demo_rp [''id-X''] w0 =
     (Ok (), snd (republishEntries demo_libs demo_rp [''id-X''] w0)) \<and>
   IDFromPrivateKey demo_libs (rp_self demo_rp) = Inr ''id-X'' \<and> ''id-Z'' \<noteq> ''id-X'' \<and>
   rp_ks demo_rp ''id-Z'' = Inl ErrNoSuchKey \<and>
   (\<exists>w2. republishEntries demo_libs demo_rp ([''id-X''] @ ''id-Z'' # [''id-Y'']) w0 =
            (Err ErrNoSuchKey, w2) \<and>
         (events_since (snd (republishEntries demo_libs demo_rp [''id-X''] w0)) w2 =
            [EvDebugf ''id-Z''] \<or>
          events_since (snd (republishEntries demo_libs demo_rp [''id-X''] w0)) w2 =
            [EvDebugf ''id-Z'', EvGetById ''id-Z'']) \<and>
         now_calls w2 = now_calls (snd (republishEntries demo_libs demo_rp [''id-X''] w0)))"
proof -
  have a: "republishEntries demo_libs demo_rp [''id-X''] w0 =
     (Ok (), snd (republishEntries demo_libs demo_rp [''id-X''] w0))"
    by (simp add: demo_defs pass_defs)
  have b: "IDFromPrivateKey demo_libs (rp_self demo_rp) = Inr ''id-X''"
    by (simp add: demo_defs)
  have c: "''id-Z'' \<noteq> ''id-X''" by simp
  have d: "rp_ks demo_rp ''id-Z'' = Inl ErrNoSuchKey"
    by (simp add: demo_defs)
  have f: "(\<exists>m. IDFromPrivateKey demo_libs (rp_self demo_rp) = Inl m \<and> ErrNoSuchKey = ErrExt m) \<or>
           (\<exists>sid. IDFromPrivateKey demo_libs (rp_self demo_rp) = Inr sid \<and> ''id-Z'' \<noteq> sid \<and>
                  rp_ks demo_rp ''id-Z'' = Inl ErrNoSuchKey)"
    using b c d by blast
  from key_failure_aborts_pass[OF a f, of "[''id-Y'']"] a b c d
  show ?thesis by blast
qed

end
